theory Spec2Isabelle
  imports Main
begin

section \<open>The session store adapter (build/lib/session/store.js)\<close>

text \<open>
  A session record as the store sees it: the call identifier \<open>callSid\<close>, which is a
  column of the record itself, and the flow-specific fields.
\<close>

record call_row =
  callSid :: string
  sessionFields :: "(string \<times> string) list"

text \<open>
  What \<open>call.get({ plain: true })\<close> hands back for a query with
  \<open>include: [{ model: callModel, as: "userCall" }]\<close>: the columns of the row and the
  associated call record that the store adds.
\<close>

record plain_call =
  row :: call_row
  userCall :: "call_row option"

text \<open>
  Modelled from the spec: the call model handed to the constructor of
  \<open>SequelizeStore\<close> (its table and the three queries the store sends to it) is not
  part of the sources. The spec describes a store of session records "keyed by a call
  identifier", where \<open>set\<close> "upserts and reports whether the record was newly created or
  updated" and \<open>destroy\<close> "removes it and reports whether a record existed". The table
  is the list of its rows; \<open>findOne\<close> answers the query \<open>where: { callSid: k }\<close> with
  the first row whose \<open>callSid\<close> column is \<open>k\<close>, \<open>upsert\<close> replaces the row that has
  the \<open>callSid\<close> column of the given value or inserts the value when there is none, and
  \<open>destroyWhere\<close> deletes the rows matching \<open>where: { callSid: k }\<close> and counts them.
  Queries are taken to succeed; a rejected query is outside the three claims made of the
  store.
\<close>

type_synonym call_table = "call_row list"

definition findOne :: "call_table \<Rightarrow> string \<Rightarrow> call_row option" where
  "findOne tbl k = find (\<lambda>r. callSid r = k) tbl"

definition upsert :: "call_row \<Rightarrow> call_table \<Rightarrow> bool \<times> call_table" where
  "upsert v tbl =
     (if findOne tbl (callSid v) = None then (True, tbl @ [v])
      else (False, map (\<lambda>r. if callSid r = callSid v then v else r) tbl))"

definition destroyWhere :: "string \<Rightarrow> call_table \<Rightarrow> nat \<times> call_table" where
  "destroyWhere k tbl =
     (length (filter (\<lambda>r. callSid r = k) tbl), filter (\<lambda>r. callSid r \<noteq> k) tbl)"

text \<open>
  The three methods of \<open>SequelizeStore\<close>. The table is passed in and, where the method
  writes, returned. \<open>inc\<close> resolves the \<open>userCall\<close> association of the query; the store
  only attaches its answer. The absent signal \<open>undefined\<close> of \<open>get\<close> is \<open>None\<close>.
  \<open>set\<close> takes the call identifier and never reads it: the query is \<open>upsert(value)\<close>.
\<close>

definition SequelizeStore_get ::
  "(call_table \<Rightarrow> call_row \<Rightarrow> call_row option) \<Rightarrow> call_table \<Rightarrow> string \<Rightarrow> plain_call option" where
  "SequelizeStore_get inc tbl k =
     (case findOne tbl k of
        Some call \<Rightarrow> Some \<lparr>row = call, userCall = inc tbl call\<rparr>
      | None \<Rightarrow> None)"

definition SequelizeStore_set :: "string \<Rightarrow> call_row \<Rightarrow> call_table \<Rightarrow> string \<times> call_table" where
  "SequelizeStore_set k v tbl =
     (case upsert v tbl of (created, tbl') \<Rightarrow> (if created then ''created'' else ''updated'', tbl'))"

definition SequelizeStore_destroy :: "string \<Rightarrow> call_table \<Rightarrow> bool \<times> call_table" where
  "SequelizeStore_destroy k tbl =
     (case destroyWhere k tbl of (deletedCount, tbl') \<Rightarrow> (deletedCount > 0, tbl'))"

text \<open>A query without associated records, for the concrete runs below.\<close>

definition noUserCall :: "call_table \<Rightarrow> call_row \<Rightarrow> call_row option" where
  "noUserCall tbl call = None"

section \<open>States and candidate values (lib/state)\<close>

text \<open>
  A rejected promise carries an \<open>Error\<close> object; a settled promise is
  \<open>Inl\<close> of the error when it is rejected and \<open>Inr\<close> of the value when it is
  fulfilled. The request body is what \<open>bodyParser.urlencoded\<close> parsed; a response
  document is text.
\<close>

datatype error = Error string

type_synonym body = "(string \<times> string) list"

type_synonym twiml = string

type_synonym furl = "string \<Rightarrow> string"

text \<open>
  Modelled from the spec: the state types of \<open>./state\<close> are not part of the sources.
  The spec gives a state a \<open>name\<close> and, by capability, a \<open>uri\<close> and a rendering
  capability (Routable), a \<open>processTransitionUri\<close> and an asynchronous operation
  \<open>transitionOut(sessionData, rawInput)\<close> that gives the updated session data and the
  next state (Normal). Every field may be missing from an object at run time, so each is
  optional; the rendering capability is present or not.
\<close>

datatype state = State
  (name: "string option")
  (uri: "string option")
  (renderable: bool)
  (processTransitionUri: "string option")
  (transitionOut: "(call_row \<Rightarrow> body \<Rightarrow> error + call_row \<times> state) option")

text \<open>
  The elements of the declared sequence are checked at run time, so an element is any
  value: \<open>undefined\<close>, \<open>null\<close>, a string or a state object.
\<close>

datatype jsval = JSUndefined | JSNull | JSString string | JSObject state

fun truthy :: "jsval \<Rightarrow> bool" where
  "truthy JSUndefined = False"
| "truthy JSNull = False"
| "truthy (JSString x) = (x \<noteq> [])"
| "truthy (JSObject s) = True"

text \<open>
  \<open>String(v)\<close>, and the property read \<open>v.name\<close>. The read is only made of a truthy
  value (it stands behind \<open>&&\<close>), so the cases \<open>undefined\<close> and \<open>null\<close>, where it
  would throw, are never reached.
\<close>

fun jsString :: "jsval \<Rightarrow> string" where
  "jsString JSUndefined = ''undefined''"
| "jsString JSNull = ''null''"
| "jsString (JSString x) = x"
| "jsString (JSObject s) = ''[object Object]''"

fun nameOf :: "jsval \<Rightarrow> jsval" where
  "nameOf (JSObject s) = (case name s of Some n \<Rightarrow> JSString n | None \<Rightarrow> JSUndefined)"
| "nameOf v = JSUndefined"

text \<open>
  Modelled from the spec: the classifiers \<open>isUsableState\<close>, \<open>isRoutableState\<close> and
  \<open>isNormalState\<close> of \<open>./state\<close> are not part of the sources. The spec classifies
  "by presence of required fields/operations": a Routable state "exposes a \<open>uri\<close>
  (string) and a rendering capability", a Normal state "exposes a
  \<open>processTransitionUri\<close> (string) and a \<open>transitionOut\<close> operation", a Usable state
  "minimally, has a \<open>name\<close>", and a candidate "lacking both a \<open>uri\<close> and a
  \<open>processTransitionUri\<close>/transition operation" fails classification.
\<close>

fun isUsableState :: "jsval \<Rightarrow> bool" where
  "isUsableState (JSObject s) =
     (name s \<noteq> None \<and>
      (uri s \<noteq> None \<or> processTransitionUri s \<noteq> None \<or> transitionOut s \<noteq> None))"
| "isUsableState v = False"

fun isRoutableState :: "jsval \<Rightarrow> bool" where
  "isRoutableState (JSObject s) = (uri s \<noteq> None \<and> renderable s)"
| "isRoutableState v = False"

fun isNormalState :: "jsval \<Rightarrow> bool" where
  "isNormalState (JSObject s) = (processTransitionUri s \<noteq> None \<and> transitionOut s \<noteq> None)"
| "isNormalState v = False"

section \<open>Route compilation (lib/index.ts, the loop over the states)\<close>

text \<open>
  A binding that \<open>app.post(path, handler)\<close> adds to the router of the application. The
  handler is one of the two closures of the loop, each over the state of its iteration.
  The route table below holds the bindings of the declared states; the middleware and
  the \<open>GET /hold-music\<close> route that the function sets up before the loop belong to no
  state and are left out.
\<close>

datatype http_method = GET | POST

datatype handler = UriHandler state | ProcessTransitionUriHandler state

record route =
  httpMethod :: http_method
  path :: string
  handler :: handler

fun handlerState :: "handler \<Rightarrow> state" where
  "handlerState (UriHandler s) = s"
| "handlerState (ProcessTransitionUriHandler s) = s"

text \<open>
  The loop either runs to its end, and the function returns the application with its
  routes, or it throws at a state; then no application is returned. The routes added
  before the throw sit on an application that nobody holds; they are kept in the result
  to say what had been registered.
\<close>

datatype compile_result = Compiled "route list" | Aborted string "route list"

text \<open>
  \<open>(thisState && thisState.name) || String(thisState)\<close>, and the message of the
  \<open>Error\<close> thrown.
\<close>

definition stateAsString :: "jsval \<Rightarrow> jsval" where
  "stateAsString thisState =
     (let named = (if truthy thisState then nameOf thisState else thisState)
      in if truthy named then named else JSString (jsString thisState))"

definition invalidStateMessage :: "jsval \<Rightarrow> string" where
  "invalidStateMessage thisState = ''Invalid state provided: '' @ jsString (stateAsString thisState)"

text \<open>
  The two \<open>if\<close> statements of one iteration. Under its guard the path is present, by
  the classifier; \<open>app.post\<close> appends to the router's stack.
\<close>

fun postUri :: "jsval \<Rightarrow> route list \<Rightarrow> route list" where
  "postUri (JSObject s) routes =
     (if isRoutableState (JSObject s)
      then routes @ [\<lparr>httpMethod = POST, path = the (uri s), handler = UriHandler s\<rparr>]
      else routes)"
| "postUri v routes = routes"

fun postProcessTransitionUri :: "jsval \<Rightarrow> route list \<Rightarrow> route list" where
  "postProcessTransitionUri (JSObject s) routes =
     (if isNormalState (JSObject s)
      then routes @ [\<lparr>httpMethod = POST, path = the (processTransitionUri s),
                      handler = ProcessTransitionUriHandler s\<rparr>]
      else routes)"
| "postProcessTransitionUri v routes = routes"

fun forEachState :: "jsval list \<Rightarrow> route list \<Rightarrow> compile_result" where
  "forEachState [] routes = Compiled routes"
| "forEachState (thisState # rest) routes =
     (if \<not> isUsableState thisState then Aborted (invalidStateMessage thisState) routes
      else forEachState rest (postProcessTransitionUri thisState (postUri thisState routes)))"

text \<open>The default export of the module, from the loop on.\<close>

definition createApp :: "jsval list \<Rightarrow> compile_result" where
  "createApp states = forEachState states []"

fun routesOf :: "compile_result \<Rightarrow> route list" where
  "routesOf (Compiled routes) = routes"
| "routesOf (Aborted msg routes) = []"

section \<open>Request handling (lib/index.ts, the two handlers)\<close>

text \<open>
  A request: its method and path, the call identifier that the carrier sends with it, the
  session of the call that the session middleware leaves in \<open>req.callSession\<close> before a
  handler runs, and the parsed body.
\<close>

record request =
  reqMethod :: http_method
  reqPath :: string
  reqCallSid :: string
  callSession :: call_row
  reqBody :: body

text \<open>
  Modelled from the spec: \<open>getSessionData\<close> of \<open>./util/routeCreationHelpers\<close> is not
  part of the sources; the spec has the handler "load session", and the comment on the
  middleware says where the loaded session is kept.
\<close>

definition getSessionData :: "request \<Rightarrow> call_row" where
  "getSessionData req = callSession req"

text \<open>
  \<open>renderState\<close> of \<open>./util/routeCreationHelpers\<close> is not part of the sources either.
  The handlers take it as a parameter: any function from the state, the request, the
  session data, the asset resolver and the raw input (absent when \<open>undefined\<close>) to a
  settled promise of the document.
\<close>

type_synonym renderer =
  "state \<Rightarrow> request \<Rightarrow> call_row \<Rightarrow> furl \<Rightarrow> body option \<Rightarrow> error + twiml"

text \<open>
  What a handler does that can be seen from outside it: the calls of \<open>transitionOut\<close>
  and \<open>renderState\<close> with their arguments (the asset resolver, always
  \<open>app.locals.furl\<close>, left out), \<open>res.send\<close>, \<open>next\<close>, and a rejection that no
  callback takes. A handler gives its effects in order. Neither handler holds a call of
  the session store.
\<close>

datatype effect =
    CallTransitionOut state call_row body
  | CallRenderState state request call_row "body option"
  | ResSend twiml
  | CallNext error
  | UnhandledRejection error

text \<open>
  Both handlers end in the same statement,
  \<open>renderState(state, req, session, app.locals.furl, input).then(twiml => res.send(twiml), next)\<close>:
  the call, recorded with the arguments it is made with, and then \<open>res.send\<close> of the
  document or \<open>next\<close> of the rejection.
\<close>

definition settleRender :: "error + twiml \<Rightarrow> effect" where
  "settleRender p = (case p of Inr t \<Rightarrow> ResSend t | Inl err \<Rightarrow> CallNext err)"

definition renderStateThen ::
  "renderer \<Rightarrow> state \<Rightarrow> request \<Rightarrow> call_row \<Rightarrow> furl \<Rightarrow> body option \<Rightarrow> effect list" where
  "renderStateThen renderState st req sess appFurl input =
     [CallRenderState st req sess input, settleRender (renderState st req sess appFurl input)]"

text \<open>The handler at \<open>uri\<close>, which passes \<open>req.body\<close>.\<close>

definition uriHandler :: "renderer \<Rightarrow> furl \<Rightarrow> state \<Rightarrow> request \<Rightarrow> effect list" where
  "uriHandler renderState appFurl thisState req =
     renderStateThen renderState thisState req (getSessionData req) appFurl (Some (reqBody req))"

text \<open>
  The handler at \<open>processTransitionUri\<close>. The promise of \<open>transitionOut\<close> gets
  \<open>then\<close> with one callback, for fulfilment, which renders the result state with the
  updated session and \<open>undefined\<close> for the input. A state without the operation makes
  the call throw inside the handler, which the router hands to \<open>next\<close>.
\<close>

definition processTransitionUriHandler ::
  "renderer \<Rightarrow> furl \<Rightarrow> state \<Rightarrow> request \<Rightarrow> effect list" where
  "processTransitionUriHandler renderState appFurl thisState req =
     (case transitionOut thisState of
        None \<Rightarrow> [CallNext (Error ''TypeError: thisState.transitionOut is not a function'')]
      | Some transition \<Rightarrow>
          CallTransitionOut thisState (getSessionData req) (reqBody req) #
          (case transition (getSessionData req) (reqBody req) of
             Inl err \<Rightarrow> [UnhandledRejection err]
           | Inr (updatedSession, resultState) \<Rightarrow>
               renderStateThen renderState resultState req updatedSession appFurl None))"

text \<open>
  The router tries its bindings in the order in which they were added and runs the
  handler of the first whose method and path are those of the request; the other
  bindings are tried only if that handler calls \<open>next()\<close> without an error, which
  neither handler does. Paths are compared as strings.
\<close>

definition dispatch :: "route list \<Rightarrow> request \<Rightarrow> route option" where
  "dispatch routes req = find (\<lambda>r. httpMethod r = reqMethod req \<and> path r = reqPath req) routes"

fun runHandler :: "renderer \<Rightarrow> furl \<Rightarrow> handler \<Rightarrow> request \<Rightarrow> effect list" where
  "runHandler renderState appFurl (UriHandler s) req = uriHandler renderState appFurl s req"
| "runHandler renderState appFurl (ProcessTransitionUriHandler s) req =
     processTransitionUriHandler renderState appFurl s req"

text \<open>
  Modelled from the spec: \<open>sessionMiddleware\<close> of \<open>./session\<close>, to which
  \<open>app.use(sessionMiddleware({ store: callSessionStore }))\<close> gives the session store, is
  not part of the sources, and nothing else in \<open>index.ts\<close> holds the store. The spec has
  every request "load session" through the store before its handler runs, session data
  being "created on first contact"; on a transition-continuation route it has "persist
  updatedSession" follow the render and come before the response is sent, or race with
  it, and a session persisted "only on success"; a direct-invocation route has no such
  step. So \<open>loadSession\<close> puts what \<open>get\<close> finds under the call identifier of the
  request, or a new session of that call, into \<open>req.callSession\<close>; and
  \<open>persistSession\<close> calls \<open>set\<close> with that identifier and the session that a transition
  has had rendered, once its document is there.
\<close>

definition loadSession ::
  "(call_table \<Rightarrow> call_row \<Rightarrow> call_row option) \<Rightarrow> call_table \<Rightarrow> request \<Rightarrow> request" where
  "loadSession inc tbl req =
     req\<lparr>callSession :=
       (case SequelizeStore_get inc tbl (reqCallSid req) of
          Some call \<Rightarrow> row call
        | None \<Rightarrow> \<lparr>callSid = reqCallSid req, sessionFields = []\<rparr>)\<rparr>"

fun updatedSessionSent :: "effect list \<Rightarrow> call_row option" where
  "updatedSessionSent
     [CallTransitionOut s sess input, CallRenderState resultState req updatedSession absent,
      ResSend twiml] = Some updatedSession"
| "updatedSessionSent effects = None"

definition persistSession :: "string \<Rightarrow> effect list \<Rightarrow> call_table \<Rightarrow> call_table" where
  "persistSession k effects tbl =
     (case updatedSessionSent effects of
        Some updatedSession \<Rightarrow> snd (SequelizeStore_set k updatedSession tbl)
      | None \<Rightarrow> tbl)"

text \<open>
  A request to the application, from the session middleware on: the session is loaded,
  the router runs the handler of the binding it finds, and the session is persisted. The
  result is what the handler did and the table of the store afterwards.
\<close>

definition handleRequest ::
  "(call_table \<Rightarrow> call_row \<Rightarrow> call_row option) \<Rightarrow> renderer \<Rightarrow> furl \<Rightarrow> route list \<Rightarrow>
   request \<Rightarrow> call_table \<Rightarrow> effect list \<times> call_table" where
  "handleRequest inc renderState appFurl routes req tbl =
     (case dispatch routes req of
        None \<Rightarrow> ([], tbl)
      | Some r \<Rightarrow>
          (let effects = runHandler renderState appFurl (handler r) (loadSession inc tbl req)
           in (effects, persistSession (reqCallSid req) effects tbl)))"

text \<open>The raw input that each call of \<open>renderState\<close> among the effects was given.\<close>

fun renderInputs :: "effect list \<Rightarrow> body option list" where
  "renderInputs [] = []"
| "renderInputs (CallRenderState s req sess input # es) = input # renderInputs es"
| "renderInputs (e # es) = renderInputs es"

text \<open>The bindings that one iteration of the loop adds for its state.\<close>

definition stateRoutes :: "jsval \<Rightarrow> route list" where
  "stateRoutes thisState = postProcessTransitionUri thisState (postUri thisState [])"

section \<open>The flow of the spec's scenarios\<close>

text \<open>
  State A is Routable and Normal (\<open>/a\<close>, \<open>/a/next\<close>) and its transition gives step 1
  and state B; B is Routable at \<open>/b\<close>. The other states are variations: a second
  state at \<open>/b\<close>, a state whose two paths are the same, a state whose transition is
  rejected, a state whose transition hands back a session with the identifier of another
  call, and two objects without \<open>uri\<close>, \<open>processTransitionUri\<close> and
  \<open>transitionOut\<close>, one of them named.
\<close>

definition stateB :: state where
  "stateB = State (Some ''B'') (Some ''/b'') True None None"

definition toStepOne :: "call_row \<Rightarrow> body \<Rightarrow> error + call_row \<times> state" where
  "toStepOne sess input = Inr (sess\<lparr>sessionFields := [(''step'', ''1'')]\<rparr>, stateB)"

definition stateA :: state where
  "stateA = State (Some ''A'') (Some ''/a'') True (Some ''/a/next'') (Some toStepOne)"

definition stateB2 :: state where
  "stateB2 = State (Some ''B2'') (Some ''/b'') True None None"

definition stateSamePaths :: state where
  "stateSamePaths = State (Some ''C'') (Some ''/c'') True (Some ''/c'') (Some toStepOne)"

definition rejectChoice :: "call_row \<Rightarrow> body \<Rightarrow> error + call_row \<times> state" where
  "rejectChoice sess input = Inl (Error ''no such choice'')"

definition stateRejecting :: state where
  "stateRejecting = State (Some ''R'') None False (Some ''/r/next'') (Some rejectChoice)"



definition stateOrphan :: state where
  "stateOrphan = State (Some ''orphan'') None False None None"

definition stateNameless :: state where
  "stateNameless = State None None False None None"

text \<open>
  A renderer whose document is the name of the state it is given, and one that does the
  same without raw input and rejects when it is given any.
\<close>

definition renderName :: renderer where
  "renderName s req sess appFurl input = Inr (case name s of Some n \<Rightarrow> n | None \<Rightarrow> [])"

definition renderNoInput :: renderer where
  "renderNoInput s req sess appFurl input =
     (case input of
        None \<Rightarrow> Inr (case name s of Some n \<Rightarrow> n | None \<Rightarrow> [])
      | Some b \<Rightarrow> Inl (Error ''unexpected input''))"

definition plainFurl :: furl where
  "plainFurl p = p"

definition sessionStepZero :: call_row where
  "sessionStepZero = \<lparr>callSid = ''CA1'', sessionFields = [(''step'', ''0'')]\<rparr>"

definition requestTo :: "string \<Rightarrow> request" where
  "requestTo p = \<lparr>reqMethod = POST, reqPath = p, reqCallSid = ''CA1'',
                   callSession = sessionStepZero, reqBody = [(''choice'', ''1'')]\<rparr>"

section \<open>Properties of the session store\<close>

lemma findOne_None_iff: "findOne tbl k = None \<longleftrightarrow> (\<forall>r \<in> set tbl. callSid r \<noteq> k)"
  by (auto simp: findOne_def find_None_iff)

lemma findOne_Some_callSid: "findOne tbl k = Some r \<Longrightarrow> callSid r = k"
  by (auto simp: findOne_def find_Some_iff)

lemma findOne_replace_same:
  "findOne tbl (callSid v) \<noteq> None \<Longrightarrow>
   findOne (map (\<lambda>r. if callSid r = callSid v then v else r) tbl) (callSid v) = Some v"
  by (induction tbl) (auto simp: findOne_def)

lemma findOne_replace_other:
  "k \<noteq> callSid v \<Longrightarrow>
   findOne (map (\<lambda>r. if callSid r = callSid v then v else r) tbl) k = findOne tbl k"
  by (induction tbl) (auto simp: findOne_def)

lemma findOne_after_upsert:
  "findOne (snd (upsert v tbl)) k = (if k = callSid v then Some v else findOne tbl k)"
proof (cases "findOne tbl (callSid v) = None")
  case True
  then show ?thesis
    by (induction tbl) (auto simp: upsert_def findOne_def split: if_splits)
next
  case False
  then show ?thesis
    using findOne_replace_same [of tbl v] findOne_replace_other [of k v tbl]
    by (auto simp: upsert_def)
qed

lemma findOne_after_destroyWhere: "findOne (snd (destroyWhere k tbl)) k = None"
  by (simp add: destroyWhere_def findOne_None_iff)

lemma destroyWhere_absent: "findOne tbl k = None \<Longrightarrow> destroyWhere k tbl = (0, tbl)"
proof -
  assume "findOne tbl k = None"
  then have none: "\<forall>r \<in> set tbl. callSid r \<noteq> k"
    by (simp add: findOne_None_iff)
  then have "filter (\<lambda>r. callSid r = k) tbl = []" and "filter (\<lambda>r. callSid r \<noteq> k) tbl = tbl"
    by (simp_all add: filter_empty_conv filter_id_conv)
  then show ?thesis
    by (simp add: destroyWhere_def)
qed

lemma destroyWhere_present: "findOne tbl k \<noteq> None \<Longrightarrow> 0 < fst (destroyWhere k tbl)"
  by (auto simp: destroyWhere_def findOne_None_iff filter_empty_conv)

lemma get_row: "map_option row (SequelizeStore_get inc tbl k) = findOne tbl k"
  by (simp add: SequelizeStore_get_def split: option.splits)

lemma get_None_iff: "SequelizeStore_get inc tbl k = None \<longleftrightarrow> findOne tbl k = None"
  by (simp add: SequelizeStore_get_def split: option.splits)

lemma set_table: "snd (SequelizeStore_set k v tbl) = snd (upsert v tbl)"
  by (simp add: SequelizeStore_set_def split: prod.splits)

lemma destroy_table: "snd (SequelizeStore_destroy k tbl) = snd (destroyWhere k tbl)"
  by (simp add: SequelizeStore_destroy_def split: prod.splits)

lemma destroy_answer: "fst (SequelizeStore_destroy k tbl) \<longleftrightarrow> 0 < fst (destroyWhere k tbl)"
  by (simp add: SequelizeStore_destroy_def split: prod.splits)

text \<open>
  C7, as the code has it. \<open>set\<close> stores the value under the \<open>callSid\<close> column of the
  value; when that column is the call identifier passed to \<open>set\<close>, a \<open>get\<close> with the
  same identifier right after it finds a record and its columns are the value that was
  set (the \<open>userCall\<close> association is what the store adds).
\<close>

theorem set_get_roundtrip_matching_key:
  assumes "callSid v = k"
  shows "map_option row (SequelizeStore_get inc (snd (SequelizeStore_set k v tbl)) k) = Some v"
  using assms
  by (simp add: get_row set_table findOne_after_upsert)

theorem set_get_roundtrip_matching_key_witness:
  "callSid \<lparr>callSid = ''CA1'', sessionFields = [(''step'', ''1'')]\<rparr> = ''CA1'' \<and>
   map_option row
     (SequelizeStore_get noUserCall
        (snd (SequelizeStore_set ''CA1'' \<lparr>callSid = ''CA1'', sessionFields = [(''step'', ''1'')]\<rparr>
           [\<lparr>callSid = ''CA1'', sessionFields = [(''step'', ''0'')]\<rparr>])) ''CA1'')
   = Some \<lparr>callSid = ''CA1'', sessionFields = [(''step'', ''1'')]\<rparr>"
  using set_get_roundtrip_matching_key
    [of "\<lparr>callSid = ''CA1'', sessionFields = [(''step'', ''1'')]\<rparr>" "''CA1''" noUserCall
        "[\<lparr>callSid = ''CA1'', sessionFields = [(''step'', ''0'')]\<rparr>]"]
  by simp

text \<open>
  C7 as the spec states it, for every call identifier and record, fails: the record
  \<open>{callSid: "CA2", step: 1}\<close> set under the identifier \<open>CA1\<close> in an empty store is
  filed under \<open>CA2\<close>, and \<open>get("CA1")\<close> answers \<open>undefined\<close>.
\<close>

theorem set_get_roundtrip_counterexample:
  "SequelizeStore_get noUserCall
     (snd (SequelizeStore_set ''CA1'' \<lparr>callSid = ''CA2'', sessionFields = [(''step'', ''1'')]\<rparr> []))
     ''CA1'' = None"
  by (simp add: SequelizeStore_get_def SequelizeStore_set_def upsert_def findOne_def)

text \<open>
  C8: \<open>destroy\<close> of a call identifier under which the store holds no record answers
  \<open>false\<close> and leaves the table as it was; \<open>destroy\<close> of one under which it holds a
  record answers \<open>true\<close>, and a \<open>get\<close> of that identifier afterwards answers
  \<open>undefined\<close>.
\<close>

theorem destroy_reports_existence:
  "(SequelizeStore_get inc tbl k = None \<longrightarrow> SequelizeStore_destroy k tbl = (False, tbl)) \<and>
   (SequelizeStore_get inc tbl k \<noteq> None \<longrightarrow>
      fst (SequelizeStore_destroy k tbl) = True \<and>
      SequelizeStore_get inc (snd (SequelizeStore_destroy k tbl)) k = None)"
proof (intro conjI impI)
  assume "SequelizeStore_get inc tbl k = None"
  then have "findOne tbl k = None"
    by (simp add: get_None_iff)
  then show "SequelizeStore_destroy k tbl = (False, tbl)"
    by (simp add: SequelizeStore_destroy_def destroyWhere_absent)
next
  assume "SequelizeStore_get inc tbl k \<noteq> None"
  then have "findOne tbl k \<noteq> None"
    by (simp add: get_None_iff)
  then show "fst (SequelizeStore_destroy k tbl) = True"
    using destroyWhere_present [of tbl k]
    by (simp add: destroy_answer)
next
  show "SequelizeStore_get inc (snd (SequelizeStore_destroy k tbl)) k = None"
    by (simp add: get_None_iff destroy_table findOne_after_destroyWhere)
qed

theorem destroy_reports_existence_witness:
  "SequelizeStore_get noUserCall [\<lparr>callSid = ''CA1'', sessionFields = []\<rparr>] ''CA9'' = None \<and>
   SequelizeStore_destroy ''CA9'' [\<lparr>callSid = ''CA1'', sessionFields = []\<rparr>]
     = (False, [\<lparr>callSid = ''CA1'', sessionFields = []\<rparr>]) \<and>
   SequelizeStore_get noUserCall [\<lparr>callSid = ''CA1'', sessionFields = []\<rparr>] ''CA1'' \<noteq> None \<and>
   fst (SequelizeStore_destroy ''CA1'' [\<lparr>callSid = ''CA1'', sessionFields = []\<rparr>]) = True \<and>
   SequelizeStore_get noUserCall
     (snd (SequelizeStore_destroy ''CA1'' [\<lparr>callSid = ''CA1'', sessionFields = []\<rparr>])) ''CA1'' = None"
proof -
  have absent: "SequelizeStore_get noUserCall [\<lparr>callSid = ''CA1'', sessionFields = []\<rparr>] ''CA9'' = None"
    by (simp add: SequelizeStore_get_def findOne_def)
  have present: "SequelizeStore_get noUserCall [\<lparr>callSid = ''CA1'', sessionFields = []\<rparr>] ''CA1'' \<noteq> None"
    by (simp add: SequelizeStore_get_def findOne_def)
  show ?thesis
    using absent present
      destroy_reports_existence [of noUserCall "[\<lparr>callSid = ''CA1'', sessionFields = []\<rparr>]" "''CA9''"]
      destroy_reports_existence [of noUserCall "[\<lparr>callSid = ''CA1'', sessionFields = []\<rparr>]" "''CA1''"]
    by simp
qed

text \<open>
  C10: \<open>set\<close> never reads its call identifier, so any two identifiers give the same
  answer and the same table. The record is upserted under the \<open>callSid\<close> column of the
  value: a \<open>get\<close> of that column's identifier right after the \<open>set\<close> finds the value.
  When the column differs from the identifier passed, the \<open>get\<close> of the identifier
  passed finds what was there before the \<open>set\<close> (a record or nothing), which is never
  the value set.
\<close>

theorem set_ignores_call_identifier:
  "SequelizeStore_set k v tbl = SequelizeStore_set k' v tbl \<and>
   map_option row (SequelizeStore_get inc (snd (SequelizeStore_set k v tbl)) (callSid v)) = Some v \<and>
   (callSid v \<noteq> k \<longrightarrow>
      map_option row (SequelizeStore_get inc (snd (SequelizeStore_set k v tbl)) k)
        = map_option row (SequelizeStore_get inc tbl k) \<and>
      map_option row (SequelizeStore_get inc (snd (SequelizeStore_set k v tbl)) k) \<noteq> Some v)"
proof (intro conjI impI)
  show "SequelizeStore_set k v tbl = SequelizeStore_set k' v tbl"
    by (simp add: SequelizeStore_set_def)
  show "map_option row (SequelizeStore_get inc (snd (SequelizeStore_set k v tbl)) (callSid v))
      = Some v"
    by (simp add: get_row set_table findOne_after_upsert)
next
  assume neq: "callSid v \<noteq> k"
  have after: "findOne (snd (SequelizeStore_set k v tbl)) k = findOne tbl k"
    using neq by (auto simp: set_table findOne_after_upsert)
  show same: "map_option row (SequelizeStore_get inc (snd (SequelizeStore_set k v tbl)) k)
      = map_option row (SequelizeStore_get inc tbl k)"
    by (simp add: get_row after)
  show "map_option row (SequelizeStore_get inc (snd (SequelizeStore_set k v tbl)) k) \<noteq> Some v"
  proof
    assume "map_option row (SequelizeStore_get inc (snd (SequelizeStore_set k v tbl)) k) = Some v"
    then have "findOne tbl k = Some v"
      by (simp add: get_row after)
    then show False
      using neq findOne_Some_callSid by blast
  qed
qed

theorem set_ignores_call_identifier_witness:
  "SequelizeStore_set ''CA1'' \<lparr>callSid = ''CA2'', sessionFields = [(''step'', ''1'')]\<rparr>
       [\<lparr>callSid = ''CA1'', sessionFields = [(''step'', ''0'')]\<rparr>]
     = SequelizeStore_set ''CA7'' \<lparr>callSid = ''CA2'', sessionFields = [(''step'', ''1'')]\<rparr>
       [\<lparr>callSid = ''CA1'', sessionFields = [(''step'', ''0'')]\<rparr>] \<and>
   map_option row
     (SequelizeStore_get noUserCall
        (snd (SequelizeStore_set ''CA1'' \<lparr>callSid = ''CA2'', sessionFields = [(''step'', ''1'')]\<rparr>
           [\<lparr>callSid = ''CA1'', sessionFields = [(''step'', ''0'')]\<rparr>])) ''CA2'')
     = Some \<lparr>callSid = ''CA2'', sessionFields = [(''step'', ''1'')]\<rparr> \<and>
   callSid \<lparr>callSid = ''CA2'', sessionFields = [(''step'', ''1'')]\<rparr> \<noteq> ''CA1'' \<and>
   map_option row
     (SequelizeStore_get noUserCall
        (snd (SequelizeStore_set ''CA1'' \<lparr>callSid = ''CA2'', sessionFields = [(''step'', ''1'')]\<rparr>
           [\<lparr>callSid = ''CA1'', sessionFields = [(''step'', ''0'')]\<rparr>])) ''CA1'')
     = Some \<lparr>callSid = ''CA1'', sessionFields = [(''step'', ''0'')]\<rparr>"
proof -
  have before: "map_option row
      (SequelizeStore_get noUserCall [\<lparr>callSid = ''CA1'', sessionFields = [(''step'', ''0'')]\<rparr>] ''CA1'')
      = Some \<lparr>callSid = ''CA1'', sessionFields = [(''step'', ''0'')]\<rparr>"
    by (simp add: SequelizeStore_get_def findOne_def)
  have neq: "callSid \<lparr>callSid = ''CA2'', sessionFields = [(''step'', ''1'')]\<rparr> \<noteq> ''CA1''"
    by simp
  have key: "callSid \<lparr>callSid = ''CA2'', sessionFields = [(''step'', ''1'')]\<rparr> = ''CA2''"
    by simp
  note run = set_ignores_call_identifier
        [of "''CA1''" "\<lparr>callSid = ''CA2'', sessionFields = [(''step'', ''1'')]\<rparr>"
            "[\<lparr>callSid = ''CA1'', sessionFields = [(''step'', ''0'')]\<rparr>]" "''CA7''" noUserCall]
  from run have same: "SequelizeStore_set ''CA1'' \<lparr>callSid = ''CA2'', sessionFields = [(''step'', ''1'')]\<rparr>
       [\<lparr>callSid = ''CA1'', sessionFields = [(''step'', ''0'')]\<rparr>]
     = SequelizeStore_set ''CA7'' \<lparr>callSid = ''CA2'', sessionFields = [(''step'', ''1'')]\<rparr>
       [\<lparr>callSid = ''CA1'', sessionFields = [(''step'', ''0'')]\<rparr>]"
    by (rule conjunct1)
  from run have "map_option row
     (SequelizeStore_get noUserCall
        (snd (SequelizeStore_set ''CA1'' \<lparr>callSid = ''CA2'', sessionFields = [(''step'', ''1'')]\<rparr>
           [\<lparr>callSid = ''CA1'', sessionFields = [(''step'', ''0'')]\<rparr>]))
        (callSid \<lparr>callSid = ''CA2'', sessionFields = [(''step'', ''1'')]\<rparr>))
     = Some \<lparr>callSid = ''CA2'', sessionFields = [(''step'', ''1'')]\<rparr>"
    by blast
  then have filed: "map_option row
     (SequelizeStore_get noUserCall
        (snd (SequelizeStore_set ''CA1'' \<lparr>callSid = ''CA2'', sessionFields = [(''step'', ''1'')]\<rparr>
           [\<lparr>callSid = ''CA1'', sessionFields = [(''step'', ''0'')]\<rparr>])) ''CA2'')
     = Some \<lparr>callSid = ''CA2'', sessionFields = [(''step'', ''1'')]\<rparr>"
    by (simp only: key)
  from run neq have "map_option row
     (SequelizeStore_get noUserCall
        (snd (SequelizeStore_set ''CA1'' \<lparr>callSid = ''CA2'', sessionFields = [(''step'', ''1'')]\<rparr>
           [\<lparr>callSid = ''CA1'', sessionFields = [(''step'', ''0'')]\<rparr>])) ''CA1'')
     = map_option row
      (SequelizeStore_get noUserCall [\<lparr>callSid = ''CA1'', sessionFields = [(''step'', ''0'')]\<rparr>] ''CA1'')"
    by blast
  with before have kept: "map_option row
     (SequelizeStore_get noUserCall
        (snd (SequelizeStore_set ''CA1'' \<lparr>callSid = ''CA2'', sessionFields = [(''step'', ''1'')]\<rparr>
           [\<lparr>callSid = ''CA1'', sessionFields = [(''step'', ''0'')]\<rparr>])) ''CA1'')
     = Some \<lparr>callSid = ''CA1'', sessionFields = [(''step'', ''0'')]\<rparr>"
    by (rule trans [rotated])
  from same filed neq kept show ?thesis
    by (intro conjI)
qed

section \<open>Properties of route compilation\<close>

lemma post_append: "postProcessTransitionUri c (postUri c routes) = routes @ stateRoutes c"
  by (cases c) (simp_all add: stateRoutes_def)

lemma forEachState_usable:
  "\<forall>c \<in> set states. isUsableState c \<Longrightarrow>
   forEachState states routes = Compiled (routes @ concat (map stateRoutes states))"
  by (induction states arbitrary: routes) (simp_all add: post_append)

lemma forEachState_offender:
  "\<forall>c \<in> set pre. isUsableState c \<Longrightarrow> \<not> isUsableState d \<Longrightarrow>
   forEachState (pre @ d # post) routes
     = Aborted (invalidStateMessage d) (routes @ concat (map stateRoutes pre))"
  by (induction pre arbitrary: routes) (simp_all add: post_append)

lemma first_offender:
  assumes "c \<in> set states" and "\<not> isUsableState c"
  shows "\<exists>pre d post. states = pre @ d # post \<and> (\<forall>x \<in> set pre. isUsableState x) \<and> \<not> isUsableState d"
proof -
  from assms have "\<exists>x \<in> set states. \<not> isUsableState x" by blast
  from split_list_first_prop [OF this] show ?thesis by auto
qed

lemma createApp_Compiled_iff:
  "createApp states = Compiled routes \<longleftrightarrow>
   (\<forall>c \<in> set states. isUsableState c) \<and> routes = concat (map stateRoutes states)"
proof (cases "\<forall>c \<in> set states. isUsableState c")
  case True
  then show ?thesis
    using forEachState_usable [of states "[]"] by (auto simp: createApp_def)
next
  case False
  then obtain c where "c \<in> set states" "\<not> isUsableState c" by blast
  from first_offender [OF this] obtain pre d post where
    "states = pre @ d # post" "\<forall>x \<in> set pre. isUsableState x" "\<not> isUsableState d" by blast
  then show ?thesis
    using False forEachState_offender [of pre d post "[]"] by (simp add: createApp_def)
qed

lemma stateRoutes_member:
  "r \<in> set (stateRoutes c) \<Longrightarrow>
   httpMethod r = POST \<and> JSObject (handlerState (handler r)) = c \<and>
   (case handler r of
      UriHandler s \<Rightarrow> isRoutableState (JSObject s) \<and> uri s = Some (path r)
    | ProcessTransitionUriHandler s \<Rightarrow>
        isNormalState (JSObject s) \<and> processTransitionUri s = Some (path r))"
  by (cases c) (auto simp: stateRoutes_def split: if_splits)

lemma length_stateRoutes:
  "length (stateRoutes c) = (if isRoutableState c then 1 else 0) + (if isNormalState c then 1 else 0)"
  by (cases c) (simp_all add: stateRoutes_def)

lemma count_uri_stateRoutes:
  "length (filter (\<lambda>r. handler r = UriHandler s) (stateRoutes c))
     = (if c = JSObject s \<and> isRoutableState c then 1 else 0)"
  by (cases c) (auto simp: stateRoutes_def)

lemma count_transition_stateRoutes:
  "length (filter (\<lambda>r. handler r = ProcessTransitionUriHandler s) (stateRoutes c))
     = (if c = JSObject s \<and> isNormalState c then 1 else 0)"
  by (cases c) (auto simp: stateRoutes_def)

lemma length_all_routes:
  "length (concat (map stateRoutes states))
     = length (filter isRoutableState states) + length (filter isNormalState states)"
  by (induction states) (simp_all add: length_stateRoutes)

lemma count_uri_routes:
  "length (filter (\<lambda>r. handler r = UriHandler s) (concat (map stateRoutes states)))
     = (if isRoutableState (JSObject s) then count_list states (JSObject s) else 0)"
  by (induction states) (auto simp: count_uri_stateRoutes)

lemma count_transition_routes:
  "length (filter (\<lambda>r. handler r = ProcessTransitionUriHandler s) (concat (map stateRoutes states)))
     = (if isNormalState (JSObject s) then count_list states (JSObject s) else 0)"
  by (induction states) (auto simp: count_transition_stateRoutes)

text \<open>
  C1, as the code has it. When the loop runs to its end, the routes of the application are
  POST bindings of the declared states and nothing else: their number is the number of
  Routable entries plus the number of Normal entries; every one is at the \<open>uri\<close> of a
  Routable declared state with the handler for direct invocation, or at the
  \<open>processTransitionUri\<close> of a Normal declared state with the handler for the
  transition; and a state has one binding of the first kind for each of its places in
  the sequence when it is Routable, none otherwise, and likewise one of the second kind
  when it is Normal. A state that is both, declared once, so has two bindings, which
  differ in their handlers. Nothing is said of their paths being different.
\<close>

theorem compiled_bindings:
  assumes "createApp states = Compiled routes"
  shows "length routes = length (filter isRoutableState states) + length (filter isNormalState states) \<and>
    (\<forall>r \<in> set routes. httpMethod r = POST \<and> JSObject (handlerState (handler r)) \<in> set states \<and>
       (case handler r of
          UriHandler s \<Rightarrow> isRoutableState (JSObject s) \<and> uri s = Some (path r)
        | ProcessTransitionUriHandler s \<Rightarrow>
            isNormalState (JSObject s) \<and> processTransitionUri s = Some (path r))) \<and>
    length (filter (\<lambda>r. handler r = UriHandler s) routes)
      = (if isRoutableState (JSObject s) then count_list states (JSObject s) else 0) \<and>
    length (filter (\<lambda>r. handler r = ProcessTransitionUriHandler s) routes)
      = (if isNormalState (JSObject s) then count_list states (JSObject s) else 0)"
proof -
  from assms have routes: "routes = concat (map stateRoutes states)"
    by (simp add: createApp_Compiled_iff)
  have "\<forall>r \<in> set routes. httpMethod r = POST \<and> JSObject (handlerState (handler r)) \<in> set states \<and>
       (case handler r of
          UriHandler s \<Rightarrow> isRoutableState (JSObject s) \<and> uri s = Some (path r)
        | ProcessTransitionUriHandler s \<Rightarrow>
            isNormalState (JSObject s) \<and> processTransitionUri s = Some (path r))"
  proof
    fix r assume "r \<in> set routes"
    then obtain c where c: "c \<in> set states" "r \<in> set (stateRoutes c)"
      by (auto simp: routes)
    from stateRoutes_member [OF c(2)] c(1) show "httpMethod r = POST \<and> JSObject (handlerState (handler r)) \<in> set states \<and>
       (case handler r of
          UriHandler s \<Rightarrow> isRoutableState (JSObject s) \<and> uri s = Some (path r)
        | ProcessTransitionUriHandler s \<Rightarrow>
            isNormalState (JSObject s) \<and> processTransitionUri s = Some (path r))"
      by simp
  qed
  then show ?thesis
    by (simp only: routes length_all_routes count_uri_routes count_transition_routes simp_thms)
qed


lemma scenario_routes:
  "createApp [JSObject stateA, JSObject stateB]
     = Compiled [\<lparr>httpMethod = POST, path = ''/a'', handler = UriHandler stateA\<rparr>,
                 \<lparr>httpMethod = POST, path = ''/a/next'', handler = ProcessTransitionUriHandler stateA\<rparr>,
                 \<lparr>httpMethod = POST, path = ''/b'', handler = UriHandler stateB\<rparr>]"
  by (simp add: createApp_def stateA_def stateB_def)

lemma stateA_neq_stateB: "stateA \<noteq> stateB" "stateB \<noteq> stateA"
  by (simp_all add: stateA_def stateB_def)

theorem compiled_bindings_witness:
  "createApp [JSObject stateA, JSObject stateB]
     = Compiled [\<lparr>httpMethod = POST, path = ''/a'', handler = UriHandler stateA\<rparr>,
                 \<lparr>httpMethod = POST, path = ''/a/next'', handler = ProcessTransitionUriHandler stateA\<rparr>,
                 \<lparr>httpMethod = POST, path = ''/b'', handler = UriHandler stateB\<rparr>] \<and>
   length (filter isRoutableState [JSObject stateA, JSObject stateB])
     + length (filter isNormalState [JSObject stateA, JSObject stateB]) = 3 \<and>
   length (filter (\<lambda>r. handler r = UriHandler stateA)
     [\<lparr>httpMethod = POST, path = ''/a'', handler = UriHandler stateA\<rparr>,
      \<lparr>httpMethod = POST, path = ''/a/next'', handler = ProcessTransitionUriHandler stateA\<rparr>,
      \<lparr>httpMethod = POST, path = ''/b'', handler = UriHandler stateB\<rparr>]) = 1 \<and>
   length (filter (\<lambda>r. handler r = ProcessTransitionUriHandler stateA)
     [\<lparr>httpMethod = POST, path = ''/a'', handler = UriHandler stateA\<rparr>,
      \<lparr>httpMethod = POST, path = ''/a/next'', handler = ProcessTransitionUriHandler stateA\<rparr>,
      \<lparr>httpMethod = POST, path = ''/b'', handler = UriHandler stateB\<rparr>]) = 1"
proof -
  note run = compiled_bindings [OF scenario_routes, of stateA]
  have classes: "isRoutableState (JSObject stateA)" "isNormalState (JSObject stateA)"
    by (simp_all add: stateA_def)
  have once: "count_list [JSObject stateA, JSObject stateB] (JSObject stateA) = 1"
    using stateA_neq_stateB by simp
  have total: "length (filter isRoutableState [JSObject stateA, JSObject stateB])
     + length (filter isNormalState [JSObject stateA, JSObject stateB]) = 3"
    by (simp add: stateA_def stateB_def)
  from run have "length (filter (\<lambda>r. handler r = UriHandler stateA)
     [\<lparr>httpMethod = POST, path = ''/a'', handler = UriHandler stateA\<rparr>,
      \<lparr>httpMethod = POST, path = ''/a/next'', handler = ProcessTransitionUriHandler stateA\<rparr>,
      \<lparr>httpMethod = POST, path = ''/b'', handler = UriHandler stateB\<rparr>])
      = (if isRoutableState (JSObject stateA)
         then count_list [JSObject stateA, JSObject stateB] (JSObject stateA) else 0)"
    by blast
  then have direct: "length (filter (\<lambda>r. handler r = UriHandler stateA)
     [\<lparr>httpMethod = POST, path = ''/a'', handler = UriHandler stateA\<rparr>,
      \<lparr>httpMethod = POST, path = ''/a/next'', handler = ProcessTransitionUriHandler stateA\<rparr>,
      \<lparr>httpMethod = POST, path = ''/b'', handler = UriHandler stateB\<rparr>]) = 1"
    by (simp only: classes once if_True)
  from run have "length (filter (\<lambda>r. handler r = ProcessTransitionUriHandler stateA)
     [\<lparr>httpMethod = POST, path = ''/a'', handler = UriHandler stateA\<rparr>,
      \<lparr>httpMethod = POST, path = ''/a/next'', handler = ProcessTransitionUriHandler stateA\<rparr>,
      \<lparr>httpMethod = POST, path = ''/b'', handler = UriHandler stateB\<rparr>])
      = (if isNormalState (JSObject stateA)
         then count_list [JSObject stateA, JSObject stateB] (JSObject stateA) else 0)"
    by blast
  then have transition: "length (filter (\<lambda>r. handler r = ProcessTransitionUriHandler stateA)
     [\<lparr>httpMethod = POST, path = ''/a'', handler = UriHandler stateA\<rparr>,
      \<lparr>httpMethod = POST, path = ''/a/next'', handler = ProcessTransitionUriHandler stateA\<rparr>,
      \<lparr>httpMethod = POST, path = ''/b'', handler = UriHandler stateB\<rparr>]) = 1"
    by (simp only: classes once if_True)
  from scenario_routes total direct transition show ?thesis
    by (intro conjI)
qed

text \<open>
  C1 as the spec states it has the two bindings of a state that is Routable and Normal at
  different paths. The state with \<open>uri\<close> and \<open>processTransitionUri\<close> both \<open>/c\<close>
  compiles, and its two bindings are at the same path.
\<close>

theorem same_paths_counterexample:
  "createApp [JSObject stateSamePaths]
     = Compiled [\<lparr>httpMethod = POST, path = ''/c'', handler = UriHandler stateSamePaths\<rparr>,
                 \<lparr>httpMethod = POST, path = ''/c'',
                    handler = ProcessTransitionUriHandler stateSamePaths\<rparr>]"
  by (simp add: createApp_def stateSamePaths_def)

text \<open>
  C3: a declared candidate without \<open>uri\<close>, without \<open>processTransitionUri\<close> and without
  \<open>transitionOut\<close> makes the compilation throw, so no application is returned, and none
  of the bindings added before the throw is a binding of that candidate.
\<close>

theorem unroutable_candidate_aborts:
  assumes "c \<in> set states"
    and "\<And>s. c = JSObject s \<Longrightarrow>
           uri s = None \<and> processTransitionUri s = None \<and> transitionOut s = None"
  shows "\<exists>msg registered. createApp states = Aborted msg registered \<and>
           (\<forall>r \<in> set registered. JSObject (handlerState (handler r)) \<noteq> c)"
proof -
  from assms(2) have bad: "\<not> isUsableState c"
    by (cases c) simp_all
  from first_offender [OF assms(1) bad] obtain pre d post where
    split: "states = pre @ d # post" "\<forall>x \<in> set pre. isUsableState x" "\<not> isUsableState d"
    by blast
  then have run: "createApp states = Aborted (invalidStateMessage d) (concat (map stateRoutes pre))"
    using forEachState_offender [of pre d post "[]"] by (simp add: createApp_def)
  have "\<forall>r \<in> set (concat (map stateRoutes pre)). JSObject (handlerState (handler r)) \<noteq> c"
  proof
    fix r assume "r \<in> set (concat (map stateRoutes pre))"
    then obtain x where x: "x \<in> set pre" "r \<in> set (stateRoutes x)" by auto
    from stateRoutes_member [OF x(2)] have "JSObject (handlerState (handler r)) = x" by simp
    with x(1) split(2) bad show "JSObject (handlerState (handler r)) \<noteq> c" by auto
  qed
  with run show ?thesis by blast
qed

theorem unroutable_candidate_aborts_witness:
  "JSObject stateOrphan \<in> set [JSObject stateA, JSObject stateOrphan, JSObject stateB] \<and>
   uri stateOrphan = None \<and> processTransitionUri stateOrphan = None \<and>
   transitionOut stateOrphan = None \<and>
   (\<exists>msg registered.
      createApp [JSObject stateA, JSObject stateOrphan, JSObject stateB] = Aborted msg registered \<and>
      (\<forall>r \<in> set registered. JSObject (handlerState (handler r)) \<noteq> JSObject stateOrphan))"
proof -
  have mem: "JSObject stateOrphan \<in> set [JSObject stateA, JSObject stateOrphan, JSObject stateB]"
    by simp
  have lacks: "uri stateOrphan = None \<and> processTransitionUri stateOrphan = None \<and>
      transitionOut stateOrphan = None"
    by (simp add: stateOrphan_def)
  then have "\<And>s. JSObject stateOrphan = JSObject s \<Longrightarrow>
      uri s = None \<and> processTransitionUri s = None \<and> transitionOut s = None"
    by simp
  from unroutable_candidate_aborts [OF mem this] lacks mem show ?thesis
    by blast
qed

lemma message_by_name:
  "invalidStateMessage d = ''Invalid state provided: '' @
     (case d of
        JSObject s \<Rightarrow> (case name s of Some n \<Rightarrow> if n = [] then jsString d else n
                                    | None \<Rightarrow> jsString d)
      | JSUndefined \<Rightarrow> jsString d | JSNull \<Rightarrow> jsString d | JSString x \<Rightarrow> jsString d)"
  by (cases d) (simp_all add: invalidStateMessage_def stateAsString_def split: option.splits)

text \<open>
  C5: when a declared candidate is not Usable, the compilation throws at the first such
  candidate of the sequence, and the message of the error is
  \<open>Invalid state provided: \<close> followed by the name of that candidate when it is an
  object with a name that is not the empty string, and by \<open>String\<close> of the candidate
  otherwise (the empty string is falsy, so an empty name counts as no name).
\<close>

theorem invalid_state_error_message:
  assumes "c \<in> set states" and "\<not> isUsableState c"
  shows "\<exists>pre d post. states = pre @ d # post \<and> (\<forall>x \<in> set pre. isUsableState x) \<and>
           \<not> isUsableState d \<and>
           createApp states =
             Aborted (''Invalid state provided: '' @
                (case d of
                   JSObject s \<Rightarrow> (case name s of Some n \<Rightarrow> if n = [] then jsString d else n
                                               | None \<Rightarrow> jsString d)
                 | JSUndefined \<Rightarrow> jsString d | JSNull \<Rightarrow> jsString d | JSString x \<Rightarrow> jsString d))
               (concat (map stateRoutes pre))"
proof -
  from first_offender [OF assms] obtain pre d post where
    split: "states = pre @ d # post" "\<forall>x \<in> set pre. isUsableState x" "\<not> isUsableState d"
    by blast
  then have "createApp states = Aborted (invalidStateMessage d) (concat (map stateRoutes pre))"
    using forEachState_offender [of pre d post "[]"] by (simp add: createApp_def)
  with split show ?thesis
    unfolding message_by_name by blast
qed

theorem invalid_state_error_message_witness:
  "JSObject stateNameless \<in> set [JSObject stateA, JSObject stateNameless, JSObject stateOrphan] \<and>
   \<not> isUsableState (JSObject stateNameless) \<and>
   (\<exists>pre d post.
      [JSObject stateA, JSObject stateNameless, JSObject stateOrphan] = pre @ d # post \<and>
      (\<forall>x \<in> set pre. isUsableState x) \<and> \<not> isUsableState d \<and>
      createApp [JSObject stateA, JSObject stateNameless, JSObject stateOrphan] =
        Aborted (''Invalid state provided: '' @
           (case d of
              JSObject s \<Rightarrow> (case name s of Some n \<Rightarrow> if n = [] then jsString d else n
                                          | None \<Rightarrow> jsString d)
            | JSUndefined \<Rightarrow> jsString d | JSNull \<Rightarrow> jsString d | JSString x \<Rightarrow> jsString d))
          (concat (map stateRoutes pre))) \<and>
   createApp [JSObject stateA, JSObject stateNameless, JSObject stateOrphan] =
     Aborted ''Invalid state provided: [object Object]''
       [\<lparr>httpMethod = POST, path = ''/a'', handler = UriHandler stateA\<rparr>,
        \<lparr>httpMethod = POST, path = ''/a/next'', handler = ProcessTransitionUriHandler stateA\<rparr>] \<and>
   createApp [JSObject stateOrphan, JSObject stateNameless] =
     Aborted ''Invalid state provided: orphan'' []"
proof -
  have mem: "JSObject stateNameless \<in> set [JSObject stateA, JSObject stateNameless, JSObject stateOrphan]"
    by simp
  have bad: "\<not> isUsableState (JSObject stateNameless)"
    by (simp add: stateNameless_def)
  have run1: "createApp [JSObject stateA, JSObject stateNameless, JSObject stateOrphan] =
     Aborted ''Invalid state provided: [object Object]''
       [\<lparr>httpMethod = POST, path = ''/a'', handler = UriHandler stateA\<rparr>,
        \<lparr>httpMethod = POST, path = ''/a/next'', handler = ProcessTransitionUriHandler stateA\<rparr>]"
    by (simp add: createApp_def stateA_def stateNameless_def invalidStateMessage_def
        stateAsString_def)
  have run2: "createApp [JSObject stateOrphan, JSObject stateNameless] =
     Aborted ''Invalid state provided: orphan'' []"
    by (simp add: createApp_def stateOrphan_def invalidStateMessage_def stateAsString_def)
  from invalid_state_error_message [OF mem bad] mem bad run1 run2 show ?thesis
    by (intro conjI)
qed

section \<open>Properties of the handlers and of dispatch\<close>

lemma dispatch_append:
  "dispatch (xs @ ys) req = (case dispatch xs req of None \<Rightarrow> dispatch ys req | Some r \<Rightarrow> Some r)"
  by (induction xs) (simp_all add: dispatch_def)

lemma handleRequest_found:
  "dispatch routes req = Some r \<Longrightarrow>
   handleRequest inc renderState appFurl routes req tbl =
     (runHandler renderState appFurl (handler r) (loadSession inc tbl req),
      persistSession (reqCallSid req)
        (runHandler renderState appFurl (handler r) (loadSession inc tbl req)) tbl)"
  by (simp add: handleRequest_def Let_def)


lemma loadSession_scenario:
  "loadSession noUserCall [sessionStepZero] (requestTo p) = requestTo p"
  by (simp add: loadSession_def requestTo_def SequelizeStore_get_def findOne_def sessionStepZero_def)


lemma transition_fulfilled:
  assumes "transitionOut thisState = Some transition"
    and "transition (getSessionData req) (reqBody req) = Inr (updatedSession, nextState)"
  shows "processTransitionUriHandler renderState appFurl thisState req =
    [CallTransitionOut thisState (getSessionData req) (reqBody req),
     CallRenderState nextState req updatedSession None,
     settleRender (renderState nextState req updatedSession appFurl None)]"
  using assms by (simp add: processTransitionUriHandler_def renderStateThen_def)

lemma transition_rejected:
  assumes "transitionOut thisState = Some transition"
    and "transition (getSessionData req) (reqBody req) = Inl err"
  shows "processTransitionUriHandler renderState appFurl thisState req =
    [CallTransitionOut thisState (getSessionData req) (reqBody req), UnhandledRejection err]"
  using assms by (simp add: processTransitionUriHandler_def)

text \<open>
  C9, as the code has it. The routes of the compiled application are the bindings of the
  declared states in the order of declaration (within a state, the one at \<open>uri\<close>
  first). A request is handled by the binding of the earliest declared state that
  matches it, whatever the states declared after it register at the same path.
\<close>

theorem first_registration_wins:
  assumes "createApp states = Compiled routes"
  shows "routes = concat (map stateRoutes states) \<and>
    (\<forall>pre c post r.
       states = pre @ c # post \<and> dispatch (concat (map stateRoutes pre)) req = None \<and>
       dispatch (stateRoutes c) req = Some r \<longrightarrow>
       dispatch routes req = Some r \<and>
       handleRequest inc renderState appFurl routes req tbl =
         (runHandler renderState appFurl (handler r) (loadSession inc tbl req),
          persistSession (reqCallSid req)
            (runHandler renderState appFurl (handler r) (loadSession inc tbl req)) tbl))"
proof (intro conjI allI impI)
  from assms show routes: "routes = concat (map stateRoutes states)"
    by (simp add: createApp_Compiled_iff)
  fix pre c post r
  assume h: "states = pre @ c # post \<and> dispatch (concat (map stateRoutes pre)) req = None \<and>
       dispatch (stateRoutes c) req = Some r"
  then show found: "dispatch routes req = Some r"
    by (simp add: routes dispatch_append)
  then show "handleRequest inc renderState appFurl routes req tbl =
         (runHandler renderState appFurl (handler r) (loadSession inc tbl req),
          persistSession (reqCallSid req)
            (runHandler renderState appFurl (handler r) (loadSession inc tbl req)) tbl)"
    by (rule handleRequest_found)
qed

lemma two_at_b:
  "createApp [JSObject stateB, JSObject stateB2]
     = Compiled [\<lparr>httpMethod = POST, path = ''/b'', handler = UriHandler stateB\<rparr>,
                 \<lparr>httpMethod = POST, path = ''/b'', handler = UriHandler stateB2\<rparr>]"
  by (simp add: createApp_def stateB_def stateB2_def)

theorem first_registration_wins_witness:
  "createApp [JSObject stateB, JSObject stateB2]
     = Compiled [\<lparr>httpMethod = POST, path = ''/b'', handler = UriHandler stateB\<rparr>,
                 \<lparr>httpMethod = POST, path = ''/b'', handler = UriHandler stateB2\<rparr>] \<and>
   [JSObject stateB, JSObject stateB2] = [] @ JSObject stateB # [JSObject stateB2] \<and>
   dispatch (concat (map stateRoutes [])) (requestTo ''/b'') = None \<and>
   dispatch (stateRoutes (JSObject stateB)) (requestTo ''/b'')
     = Some \<lparr>httpMethod = POST, path = ''/b'', handler = UriHandler stateB\<rparr> \<and>
   dispatch [\<lparr>httpMethod = POST, path = ''/b'', handler = UriHandler stateB\<rparr>,
             \<lparr>httpMethod = POST, path = ''/b'', handler = UriHandler stateB2\<rparr>] (requestTo ''/b'')
     = Some \<lparr>httpMethod = POST, path = ''/b'', handler = UriHandler stateB\<rparr>"
proof -
  have split: "[JSObject stateB, JSObject stateB2] = [] @ JSObject stateB # [JSObject stateB2]"
    by simp
  have none: "dispatch (concat (map stateRoutes [])) (requestTo ''/b'') = None"
    by (simp add: dispatch_def)
  have first: "dispatch (stateRoutes (JSObject stateB)) (requestTo ''/b'')
     = Some \<lparr>httpMethod = POST, path = ''/b'', handler = UriHandler stateB\<rparr>"
    by (simp add: dispatch_def stateRoutes_def stateB_def requestTo_def)
  from first_registration_wins [OF two_at_b, of "requestTo ''/b''"] split none first
  have "dispatch [\<lparr>httpMethod = POST, path = ''/b'', handler = UriHandler stateB\<rparr>,
             \<lparr>httpMethod = POST, path = ''/b'', handler = UriHandler stateB2\<rparr>] (requestTo ''/b'')
     = Some \<lparr>httpMethod = POST, path = ''/b'', handler = UriHandler stateB\<rparr>"
    by blast
  with two_at_b split none first show ?thesis
    by (intro conjI)
qed

text \<open>
  C9 as the spec states it lets the later registration win. With B and B2 both declared
  at \<open>/b\<close>, in that order, a POST to \<open>/b\<close> runs the handler of B, which is not the
  handler of B2, and the document sent is the one rendered for B.
\<close>

theorem last_registration_wins_counterexample:
  "map_option handler
     (dispatch (routesOf (createApp [JSObject stateB, JSObject stateB2])) (requestTo ''/b''))
     = Some (UriHandler stateB) \<and>
   UriHandler stateB \<noteq> UriHandler stateB2 \<and>
   fst (handleRequest noUserCall renderName plainFurl
          (routesOf (createApp [JSObject stateB, JSObject stateB2])) (requestTo ''/b'')
          [sessionStepZero])
     = [CallRenderState stateB (requestTo ''/b'') sessionStepZero (Some [(''choice'', ''1'')]),
        ResSend ''B'']"
proof (intro conjI)
  have found: "dispatch (routesOf (createApp [JSObject stateB, JSObject stateB2])) (requestTo ''/b'')
      = Some \<lparr>httpMethod = POST, path = ''/b'', handler = UriHandler stateB\<rparr>"
    by (simp add: two_at_b dispatch_def requestTo_def)
  then show "map_option handler
     (dispatch (routesOf (createApp [JSObject stateB, JSObject stateB2])) (requestTo ''/b''))
     = Some (UriHandler stateB)"
    by simp
  show "UriHandler stateB \<noteq> UriHandler stateB2"
    by (simp add: stateB_def stateB2_def)
  have run: "fst (handleRequest noUserCall renderName plainFurl
          (routesOf (createApp [JSObject stateB, JSObject stateB2])) (requestTo ''/b'')
          [sessionStepZero])
      = uriHandler renderName plainFurl stateB (requestTo ''/b'')"
    by (simp add: handleRequest_found [OF found] loadSession_scenario)
  have "name stateB = Some ''B''"
    by (simp add: stateB_def)
  then show "fst (handleRequest noUserCall renderName plainFurl
          (routesOf (createApp [JSObject stateB, JSObject stateB2])) (requestTo ''/b'')
          [sessionStepZero])
     = [CallRenderState stateB (requestTo ''/b'') sessionStepZero (Some [(''choice'', ''1'')]),
        ResSend ''B'']"
    unfolding run
    by (simp add: uriHandler_def renderStateThen_def settleRender_def renderName_def
        getSessionData_def requestTo_def)
qed



lemma toStepOne_scenario:
  "toStepOne (getSessionData (requestTo ''/a/next'')) (reqBody (requestTo ''/a/next''))
     = Inr (\<lparr>callSid = ''CA1'', sessionFields = [(''step'', ''1'')]\<rparr>, stateB)"
  by (simp add: toStepOne_def getSessionData_def requestTo_def sessionStepZero_def)





text \<open>
  C4 at a state whose \<open>transitionOut\<close> is rejected: the handler calls the operation once
  and the rejection is taken by no callback. \<open>next\<close> is not called, nothing is sent,
  and the store is left as it was.
\<close>

theorem rejected_transition_not_passed_to_next:
  "handleRequest noUserCall renderName plainFurl (routesOf (createApp [JSObject stateRejecting]))
       (requestTo ''/r/next'') [sessionStepZero] =
     ([CallTransitionOut stateRejecting sessionStepZero [(''choice'', ''1'')],
       UnhandledRejection (Error ''no such choice'')], [sessionStepZero])"
proof -
  have routes: "createApp [JSObject stateRejecting]
      = Compiled [\<lparr>httpMethod = POST, path = ''/r/next'',
                    handler = ProcessTransitionUriHandler stateRejecting\<rparr>]"
    by (simp add: createApp_def stateRejecting_def)
  have found: "dispatch (routesOf (createApp [JSObject stateRejecting])) (requestTo ''/r/next'')
      = Some \<lparr>httpMethod = POST, path = ''/r/next'',
                handler = ProcessTransitionUriHandler stateRejecting\<rparr>"
    by (simp add: routes dispatch_def requestTo_def)
  have op: "transitionOut stateRejecting = Some rejectChoice"
    by (simp add: stateRejecting_def)
  have args: "getSessionData (requestTo ''/r/next'') = sessionStepZero"
    "reqBody (requestTo ''/r/next'') = [(''choice'', ''1'')]"
    by (simp_all add: getSessionData_def requestTo_def)
  have "rejectChoice (getSessionData (requestTo ''/r/next'')) (reqBody (requestTo ''/r/next''))
      = Inl (Error ''no such choice'')"
    by (simp add: rejectChoice_def)
  from transition_rejected [OF op this, of renderName plainFurl]
  have run: "processTransitionUriHandler renderName plainFurl stateRejecting (requestTo ''/r/next'')
      = [CallTransitionOut stateRejecting sessionStepZero [(''choice'', ''1'')],
         UnhandledRejection (Error ''no such choice'')]"
    by (simp add: args)
  show ?thesis
    by (simp add: handleRequest_found [OF found] loadSession_scenario run persistSession_def)
qed


lemma renderInputs_settleRender: "renderInputs [settleRender p] = []"
  by (cases p) (simp_all add: settleRender_def)

lemma renderInputs_renderStateThen:
  "renderInputs (renderStateThen renderState st req sess appFurl input) = [input]"
  by (simp add: renderStateThen_def renderInputs_settleRender)

text \<open>
  C6: the handler of a binding for direct invocation applies \<open>renderState\<close> once, to
  the body of the request as raw input, and sends or forwards what that application
  gives. The handler of a binding for the transition applies \<open>renderState\<close> only
  without raw input: every call it makes is without, its run is the same for any two
  renderers that agree where the raw input is absent, and after a fulfilled transition it
  sends or forwards what \<open>renderState\<close> gives for the result state, the updated session
  and no raw input.
\<close>

theorem raw_input_only_on_direct_route:
  "runHandler renderState appFurl (UriHandler thisState) req =
     [CallRenderState thisState req (getSessionData req) (Some (reqBody req)),
      settleRender (renderState thisState req (getSessionData req) appFurl (Some (reqBody req)))] \<and>
   renderInputs (runHandler renderState appFurl (UriHandler thisState) req)
     = [Some (reqBody req)] \<and>
   (\<forall>input \<in> set (renderInputs
       (runHandler renderState appFurl (ProcessTransitionUriHandler thisState) req)).
      input = None) \<and>
   (\<forall>other.
      (\<forall>st r sess f. other st r sess f None = renderState st r sess f None) \<longrightarrow>
      runHandler other appFurl (ProcessTransitionUriHandler thisState) req
        = runHandler renderState appFurl (ProcessTransitionUriHandler thisState) req) \<and>
   (\<forall>transition updatedSession resultState.
      transitionOut thisState = Some transition \<and>
      transition (getSessionData req) (reqBody req) = Inr (updatedSession, resultState) \<longrightarrow>
      runHandler renderState appFurl (ProcessTransitionUriHandler thisState) req =
        [CallTransitionOut thisState (getSessionData req) (reqBody req),
         CallRenderState resultState req updatedSession None,
         settleRender (renderState resultState req updatedSession appFurl None)])"
proof (intro conjI allI impI)
  show "runHandler renderState appFurl (UriHandler thisState) req =
     [CallRenderState thisState req (getSessionData req) (Some (reqBody req)),
      settleRender (renderState thisState req (getSessionData req) appFurl (Some (reqBody req)))]"
    by (simp add: uriHandler_def renderStateThen_def)
  show "renderInputs (runHandler renderState appFurl (UriHandler thisState) req)
     = [Some (reqBody req)]"
    by (simp add: uriHandler_def renderInputs_renderStateThen)
  show "\<forall>input \<in> set (renderInputs
       (runHandler renderState appFurl (ProcessTransitionUriHandler thisState) req)).
      input = None"
    by (simp add: processTransitionUriHandler_def renderInputs_renderStateThen
        split: option.splits sum.splits prod.splits)
next
  fix other :: renderer
  assume "\<forall>st r sess f. other st r sess f None = renderState st r sess f None"
  then show "runHandler other appFurl (ProcessTransitionUriHandler thisState) req
        = runHandler renderState appFurl (ProcessTransitionUriHandler thisState) req"
    by (simp add: processTransitionUriHandler_def renderStateThen_def
        split: option.splits sum.splits prod.splits)
next
  fix transition updatedSession resultState
  assume "transitionOut thisState = Some transition \<and>
      transition (getSessionData req) (reqBody req) = Inr (updatedSession, resultState)"
  then show "runHandler renderState appFurl (ProcessTransitionUriHandler thisState) req =
        [CallTransitionOut thisState (getSessionData req) (reqBody req),
         CallRenderState resultState req updatedSession None,
         settleRender (renderState resultState req updatedSession appFurl None)]"
    by (simp add: transition_fulfilled)
qed

lemma renderNoInput_absent:
  "\<forall>st r sess f. renderNoInput st r sess f None = renderName st r sess f None"
  by (simp add: renderNoInput_def renderName_def)

theorem raw_input_only_on_direct_route_witness:
  "runHandler renderNoInput plainFurl (UriHandler stateA) (requestTo ''/a'') =
     [CallRenderState stateA (requestTo ''/a'') sessionStepZero (Some [(''choice'', ''1'')]),
      CallNext (Error ''unexpected input'')] \<and>
   (\<forall>st r sess f. renderNoInput st r sess f None = renderName st r sess f None) \<and>
   runHandler renderNoInput plainFurl (ProcessTransitionUriHandler stateA) (requestTo ''/a/next'')
     = runHandler renderName plainFurl (ProcessTransitionUriHandler stateA) (requestTo ''/a/next'') \<and>
   transitionOut stateA = Some toStepOne \<and>
   toStepOne (getSessionData (requestTo ''/a/next'')) (reqBody (requestTo ''/a/next''))
     = Inr (\<lparr>callSid = ''CA1'', sessionFields = [(''step'', ''1'')]\<rparr>, stateB) \<and>
   runHandler renderNoInput plainFurl (ProcessTransitionUriHandler stateA) (requestTo ''/a/next'') =
     [CallTransitionOut stateA sessionStepZero [(''choice'', ''1'')],
      CallRenderState stateB (requestTo ''/a/next'')
        \<lparr>callSid = ''CA1'', sessionFields = [(''step'', ''1'')]\<rparr> None,
      ResSend ''B'']"
proof -
  have op: "transitionOut stateA = Some toStepOne"
    by (simp add: stateA_def)
  have args: "getSessionData (requestTo p) = sessionStepZero"
    "reqBody (requestTo p) = [(''choice'', ''1'')]" for p
    by (simp_all add: getSessionData_def requestTo_def)
  have rejected: "settleRender (renderNoInput stateA (requestTo ''/a'') sessionStepZero plainFurl
      (Some [(''choice'', ''1'')])) = CallNext (Error ''unexpected input'')"
    by (simp add: settleRender_def renderNoInput_def)
  have sent: "settleRender (renderNoInput stateB (requestTo ''/a/next'')
      \<lparr>callSid = ''CA1'', sessionFields = [(''step'', ''1'')]\<rparr> plainFurl None) = ResSend ''B''"
    by (simp add: settleRender_def renderNoInput_def stateB_def)
  note direct = raw_input_only_on_direct_route [of renderNoInput plainFurl stateA "requestTo ''/a''"]
  from direct have "runHandler renderNoInput plainFurl (UriHandler stateA) (requestTo ''/a'') =
     [CallRenderState stateA (requestTo ''/a'') (getSessionData (requestTo ''/a''))
        (Some (reqBody (requestTo ''/a''))),
      settleRender (renderNoInput stateA (requestTo ''/a'') (getSessionData (requestTo ''/a''))
        plainFurl (Some (reqBody (requestTo ''/a''))))]"
    by (rule conjunct1)
  then have c1: "runHandler renderNoInput plainFurl (UriHandler stateA) (requestTo ''/a'') =
     [CallRenderState stateA (requestTo ''/a'') sessionStepZero (Some [(''choice'', ''1'')]),
      CallNext (Error ''unexpected input'')]"
    by (simp only: args rejected)
  note same_run = raw_input_only_on_direct_route [of renderName plainFurl stateA "requestTo ''/a/next''"]
  from same_run renderNoInput_absent
  have c2: "runHandler renderNoInput plainFurl (ProcessTransitionUriHandler stateA)
      (requestTo ''/a/next'')
     = runHandler renderName plainFurl (ProcessTransitionUriHandler stateA) (requestTo ''/a/next'')"
    by blast
  note absent = raw_input_only_on_direct_route
    [of renderNoInput plainFurl stateA "requestTo ''/a/next''"]
  from absent op toStepOne_scenario
  have "runHandler renderNoInput plainFurl (ProcessTransitionUriHandler stateA)
      (requestTo ''/a/next'') =
     [CallTransitionOut stateA (getSessionData (requestTo ''/a/next''))
        (reqBody (requestTo ''/a/next'')),
      CallRenderState stateB (requestTo ''/a/next'')
        \<lparr>callSid = ''CA1'', sessionFields = [(''step'', ''1'')]\<rparr> None,
      settleRender (renderNoInput stateB (requestTo ''/a/next'')
        \<lparr>callSid = ''CA1'', sessionFields = [(''step'', ''1'')]\<rparr> plainFurl None)]"
    by blast
  then have c3: "runHandler renderNoInput plainFurl (ProcessTransitionUriHandler stateA)
      (requestTo ''/a/next'') =
     [CallTransitionOut stateA sessionStepZero [(''choice'', ''1'')],
      CallRenderState stateB (requestTo ''/a/next'')
        \<lparr>callSid = ''CA1'', sessionFields = [(''step'', ''1'')]\<rparr> None,
      ResSend ''B'']"
    by (simp only: args sent)
  from c1 renderNoInput_absent c2 op toStepOne_scenario c3 show ?thesis
    by (intro conjI)
qed

end
